theory Spec2Isabelle
  imports Complex_Main
begin

section \<open>Values at the JavaScript boundary\<close>

text \<open>
  A request body (\<^verbatim>\<open>req.body\<close>) is an object keyed by field names. The forms of the
  portal send url-encoded or multipart bodies, whose field values are strings; a field that
  was not sent reads as \<^verbatim>\<open>undefined\<close>. The body is therefore a partial map from field
  names to strings, \<open>None\<close> standing for \<^verbatim>\<open>undefined\<close>. Strings are lists of 8-bit
  code units.
\<close>

type_synonym body = "string \<rightharpoonup> string"

text \<open>\<^verbatim>\<open>!v\<close> holds for \<^verbatim>\<open>undefined\<close> and for the empty string.\<close>

definition truthy :: "string option \<Rightarrow> bool" where
  "truthy v = (case v of None \<Rightarrow> False | Some s \<Rightarrow> s \<noteq> [])"

text \<open>
  \<^verbatim>\<open>String.prototype.trim\<close>: white space and line terminators are removed at both ends
  (tab, line feed, vertical tab, form feed, carriage return, space, no-break space; the
  remaining Unicode spaces lie outside 8-bit code units).
\<close>

definition is_space :: "char \<Rightarrow> bool" where
  "is_space c \<longleftrightarrow>
     c \<in> set [CHR 0x09, CHR 0x0A, CHR 0x0B, CHR 0x0C, CHR 0x0D, CHR 0x20, CHR 0xA0]"

definition trim :: "string \<Rightarrow> string" where
  "trim s = rev (dropWhile is_space (rev (dropWhile is_space s)))"

text \<open>\<^verbatim>\<open>s.charAt(i)\<close> is the empty string when \<open>i\<close> is out of range.\<close>

definition charAt :: "string \<Rightarrow> int \<Rightarrow> string" where
  "charAt s i = (if 0 \<le> i \<and> i < int (length s) then [s ! nat i] else [])"

text \<open>\<^verbatim>\<open>Number.prototype.toString\<close> on an integral number: its decimal digits.\<close>

fun nat_digits :: "nat \<Rightarrow> string" where
  "nat_digits n =
     (if n < 10 then [''0123456789'' ! n]
      else nat_digits (n div 10) @ [''0123456789'' ! (n mod 10)])"

declare nat_digits.simps [simp del]

definition toString :: "int \<Rightarrow> string" where
  "toString i = (if i < 0 then CHR ''-'' # nat_digits (nat (- i)) else nat_digits (nat i))"

text \<open>
  \<^verbatim>\<open>Math.random()\<close> is a source of numbers \<open>r\<close> with \<open>0 \<le> r < 1\<close>. A handler receives the
  draws of its own invocation as a function \<open>random\<close>: \<open>random 0\<close> is its first draw,
  \<open>random 1\<close> the second, and so on. Draws are real numbers here; in double arithmetic
  the products \<open>r * 36\<close> and \<open>r * 900000\<close> are rounded, but stay below \<open>36\<close> and
  \<open>900000\<close> for every double \<open>r < 1\<close>, so the ranges established below are those of the
  program.
\<close>

type_synonym random_source = "nat \<Rightarrow> real"


section \<open>The case identifier generator\<close>

definition chars :: string where
  "chars = ''ABCDEFGHIJKLMNOPQRSTUVWXYZ0123456789''"

text \<open>
  The loop \<^verbatim>\<open>for (let i = 0; i < 6; i++) id += chars.charAt(Math.floor(Math.random() * chars.length))\<close>,
  with the loop counter and the identifier built so far as arguments.
\<close>

function caseId_loop :: "random_source \<Rightarrow> nat \<Rightarrow> string \<Rightarrow> string" where
  "caseId_loop random i ident =
     (if i < 6
      then caseId_loop random (i + 1)
             (ident @ charAt chars \<lfloor>random i * real (length chars)\<rfloor>)
      else ident)"
  by pat_completeness auto
termination
  by (relation "measure (\<lambda>(random, i, ident). 6 - i)") auto

declare caseId_loop.simps [simp del]

definition generateCaseId :: "random_source \<Rightarrow> string" where
  "generateCaseId random = caseId_loop random 0 ''CASE-''"


section \<open>The store\<close>

text \<open>
  The four tables live in a PostgreSQL database reached through a connection pool. The
  model keeps the three tables the case lifecycle and the admin login use, with the columns
  of \<^verbatim>\<open>ensureTables\<close>. A column declared \<^verbatim>\<open>NOT NULL\<close>, and a column that every
  \<^verbatim>\<open>INSERT\<close> of the program leaves to its \<^verbatim>\<open>DEFAULT\<close> (\<^verbatim>\<open>id\<close>, \<^verbatim>\<open>created_at\<close>,
  \<^verbatim>\<open>status\<close>), holds a value; every other column is optional, \<open>None\<close> being SQL's
  \<^verbatim>\<open>NULL\<close>. Rows are kept in insertion order.

  An instant is a count of microseconds since the epoch. The \<^verbatim>\<open>TIMESTAMP\<close> columns
  are declared without time zone: such a column holds a wall-clock reading, the count of
  microseconds an instant shows on the clock of some zone, that is the instant plus the
  offset of the zone from UTC (a \<open>zone\<close> below is this offset, in microseconds, east
  positive). \<^verbatim>\<open>created_at\<close> holds the reading of \<^verbatim>\<open>NOW()\<close> in the zone of the
  database session; \<^verbatim>\<open>otp_expires\<close> holds what the program binds to it, see
  \<open>adminLogin\<close>.
\<close>

type_synonym timestamp = int

record admin =
  ad_id :: int
  ad_name :: string
  ad_department_name :: "string option"
  ad_department_id :: "string option"
  ad_mobile_no :: "int option"
  ad_otp :: "string option"
  ad_otp_expires :: "timestamp option"
  ad_created_at :: timestamp

record complaint =
  cc_id :: int
  cc_case_id :: "string option"
  cc_subject :: string
  cc_description :: string
  cc_category :: "string option"
  cc_image_path :: "string option"
  cc_mobile_no :: int
  cc_location :: "string option"
  cc_created_at :: timestamp
  cc_status :: string

record missing_person =
  mp_id :: int
  mp_case_id :: string
  mp_name :: string
  mp_age :: "int option"
  mp_gender :: "string option"
  mp_last_seen_date :: "int option"
  mp_last_seen_location :: "string option"
  mp_description :: "string option"
  mp_media_path :: "string option"
  mp_reporter_mobile :: "int option"
  mp_status :: string
  mp_created_at :: timestamp

text \<open>
  \<open>connected\<close> tells whether the pool reaches the database; \<open>queries\<close> counts the
  statements handed to \<^verbatim>\<open>pool.query\<close>, so that "the store was not accessed" is a fact
  about the state. Each \<^verbatim>\<open>SERIAL\<close> column draws from a sequence whose last value is
  kept beside its table.
\<close>

record db =
  connected :: bool
  queries :: nat
  admins :: "admin list"
  admins_id_seq :: int
  codinCluc :: "complaint list"
  codinCluc_id_seq :: int
  missing_persons :: "missing_person list"
  missing_persons_id_seq :: int

definition empty_db :: db where
  "empty_db = \<lparr>connected = True, queries = 0, admins = [], admins_id_seq = 0,
     codinCluc = [], codinCluc_id_seq = 0, missing_persons = [], missing_persons_id_seq = 0\<rparr>"

datatype db_error =
    Connection_failure
  | Invalid_text_representation
  | Not_null_violation
  | Unique_violation

text \<open>
  Query parameters travel as text. The database converts the text bound to an
  \<^verbatim>\<open>INTEGER\<close>, \<^verbatim>\<open>BIGINT\<close> or \<^verbatim>\<open>DATE\<close> column with the input function of that type,
  which is part of PostgreSQL and not of this program: the three input functions are
  parameters of the model (\<open>None\<close>: the text is rejected). A parameter that is
  \<^verbatim>\<open>undefined\<close> or \<^verbatim>\<open>null\<close> is sent as \<^verbatim>\<open>NULL\<close>.
\<close>

record pg_input =
  int4in :: "string \<Rightarrow> int option"
  int8in :: "string \<Rightarrow> int option"
  date_in :: "string \<Rightarrow> int option"

definition bind :: "(string \<Rightarrow> 'a option) \<Rightarrow> string option \<Rightarrow> db_error + 'a option" where
  "bind input v =
     (case v of
        None \<Rightarrow> Inr None
      | Some s \<Rightarrow>
          (case input s of
             None \<Rightarrow> Inl Invalid_text_representation
           | Some x \<Rightarrow> Inr (Some x)))"

definition sent :: "db \<Rightarrow> db" where
  "sent d = d\<lparr>queries := Suc (queries d)\<rparr>"

text \<open>\<^verbatim>\<open>UPPER\<close> on text, for the ASCII letters (other characters are left as they are).\<close>

definition upper_char :: "char \<Rightarrow> char" where
  "upper_char c =
     (case map_of (zip ''abcdefghijklmnopqrstuvwxyz'' ''ABCDEFGHIJKLMNOPQRSTUVWXYZ'') c of
        None \<Rightarrow> c
      | Some u \<Rightarrow> u)"

definition UPPER :: "string \<Rightarrow> string" where
  "UPPER s = map upper_char s"


section \<open>The statements the handlers send\<close>

text \<open>
  Every statement is one call of \<^verbatim>\<open>pool.query\<close>: it is counted, fails with
  \<open>Connection_failure\<close> when the database is out of reach, fails while its parameters
  are bound when a text is not of the column's type, and is executed otherwise. An
  \<^verbatim>\<open>INSERT\<close> that is executed draws the next value of the table's sequence before the
  constraints of the table are checked, so the sequence advances even when the row is
  rejected.
\<close>

text \<open>
  \<^verbatim>\<open>SELECT COUNT(*) AS total, COUNT(*) FILTER (WHERE status = 'Resolved') AS resolved FROM codinCluc\<close>
\<close>

definition select_stats :: "db \<Rightarrow> (db_error + int \<times> int) \<times> db" where
  "select_stats d =
     (let d1 = sent d in
      if \<not> connected d then (Inl Connection_failure, d1)
      else (Inr (int (length (codinCluc d)),
                 int (length (filter (\<lambda>r. cc_status r = ''Resolved'') (codinCluc d)))), d1))"

text \<open>\<^verbatim>\<open>SELECT id FROM admins WHERE department_id = $1\<close>\<close>

definition select_admins_by_department ::
  "string option \<Rightarrow> db \<Rightarrow> (db_error + admin list) \<times> db" where
  "select_admins_by_department department_id d =
     (let d1 = sent d in
      if \<not> connected d then (Inl Connection_failure, d1)
      else (Inr (filter (\<lambda>r. department_id \<noteq> None \<and> ad_department_id r = department_id)
                   (admins d)), d1))"

text \<open>\<^verbatim>\<open>UPDATE admins SET otp = $1, otp_expires = $2 WHERE department_id = $3\<close>\<close>

definition update_admins_otp ::
  "string option \<Rightarrow> timestamp option \<Rightarrow> string option \<Rightarrow> db \<Rightarrow> (db_error + unit) \<times> db" where
  "update_admins_otp otp expires department_id d =
     (let d1 = sent d in
      if \<not> connected d then (Inl Connection_failure, d1)
      else (Inr (),
            d1\<lparr>admins :=
                 map (\<lambda>r. if department_id \<noteq> None \<and> ad_department_id r = department_id
                          then r\<lparr>ad_otp := otp, ad_otp_expires := expires\<rparr> else r)
                   (admins d1)\<rparr>))"

text \<open>
  \<^verbatim>\<open>INSERT INTO admins (name, department_name, department_id, mobile_no, otp, otp_expires) VALUES ($1, $2, $3, $4, $5, $6)\<close>
\<close>

definition insert_admins ::
  "pg_input \<Rightarrow> timestamp \<Rightarrow> string option \<Rightarrow> string option \<Rightarrow> string option \<Rightarrow>
   string option \<Rightarrow> string option \<Rightarrow> timestamp option \<Rightarrow> db \<Rightarrow> (db_error + unit) \<times> db" where
  "insert_admins pg now name department_name department_id mobile_no otp expires d =
     (let d1 = sent d in
      if \<not> connected d then (Inl Connection_failure, d1)
      else
        (case bind (int8in pg) mobile_no of
           Inl e \<Rightarrow> (Inl e, d1)
         | Inr mobile \<Rightarrow>
             (let new_id = admins_id_seq d1 + 1;
                  d2 = d1\<lparr>admins_id_seq := new_id\<rparr>
              in case name of
                   None \<Rightarrow> (Inl Not_null_violation, d2)
                 | Some nm \<Rightarrow>
                     (Inr (),
                      d2\<lparr>admins := admins d2 @
                           [\<lparr>ad_id = new_id, ad_name = nm, ad_department_name = department_name,
                             ad_department_id = department_id, ad_mobile_no = mobile,
                             ad_otp = otp, ad_otp_expires = expires,
                             ad_created_at = now\<rparr>]\<rparr>))))"

text \<open>
  \<^verbatim>\<open>SELECT * FROM admins WHERE otp=$1 AND otp_expires > NOW() ORDER BY created_at DESC LIMIT 1\<close>.
  A comparison with \<^verbatim>\<open>NULL\<close> is not true, so a row without code or expiry, and a
  \<^verbatim>\<open>NULL\<close> parameter, select nothing. \<^verbatim>\<open>NOW()\<close> is an instant (\<open>now\<close>); to
  compare the zone-less \<^verbatim>\<open>otp_expires\<close> with it the database reads the stored
  wall-clock value in the time zone of its session (\<open>session_zone\<close>), that is, it takes
  the instant \<open>e - session_zone\<close>.
\<close>

definition otp_matches :: "timestamp \<Rightarrow> int \<Rightarrow> string option \<Rightarrow> admin \<Rightarrow> bool" where
  "otp_matches now session_zone otpInput r \<longleftrightarrow>
     otpInput \<noteq> None \<and> ad_otp r = otpInput \<and>
     (case ad_otp_expires r of None \<Rightarrow> False | Some e \<Rightarrow> e - session_zone > now)"

definition select_admins_by_otp ::
  "timestamp \<Rightarrow> int \<Rightarrow> string option \<Rightarrow> db \<Rightarrow> (db_error + admin list) \<times> db" where
  "select_admins_by_otp now session_zone otpInput d =
     (let d1 = sent d in
      if \<not> connected d then (Inl Connection_failure, d1)
      else (Inr (take 1 (sort_key (\<lambda>r. - ad_created_at r)
                           (filter (otp_matches now session_zone otpInput) (admins d)))), d1))"

text \<open>\<^verbatim>\<open>UPDATE codinCluc SET status='Resolved' WHERE id=$1\<close>\<close>

definition update_codinCluc_resolved ::
  "pg_input \<Rightarrow> string \<Rightarrow> db \<Rightarrow> (db_error + unit) \<times> db" where
  "update_codinCluc_resolved pg ident d =
     (let d1 = sent d in
      if \<not> connected d then (Inl Connection_failure, d1)
      else
        (case int4in pg ident of
           None \<Rightarrow> (Inl Invalid_text_representation, d1)
         | Some k \<Rightarrow>
             (Inr (),
              d1\<lparr>codinCluc :=
                   map (\<lambda>r. if cc_id r = k then r\<lparr>cc_status := ''Resolved''\<rparr> else r)
                     (codinCluc d1)\<rparr>)))"

text \<open>
  \<^verbatim>\<open>INSERT INTO codinCluc (case_id, subject, description, category, image_path, location, mobile_no) VALUES ($1, $2, $3, $4, $5, $6, $7)\<close>.
  \<^verbatim>\<open>subject\<close>, \<^verbatim>\<open>description\<close> and \<^verbatim>\<open>mobile_no\<close> are \<^verbatim>\<open>NOT NULL\<close>;
  \<^verbatim>\<open>case_id\<close> is \<^verbatim>\<open>UNIQUE\<close>.
\<close>

definition insert_codinCluc ::
  "pg_input \<Rightarrow> timestamp \<Rightarrow> string \<Rightarrow> string option \<Rightarrow> string option \<Rightarrow> string option \<Rightarrow>
   string option \<Rightarrow> string option \<Rightarrow> string option \<Rightarrow> db \<Rightarrow> (db_error + unit) \<times> db" where
  "insert_codinCluc pg now caseId subject description category image_path location mobile d =
     (let d1 = sent d in
      if \<not> connected d then (Inl Connection_failure, d1)
      else
        (case bind (int8in pg) mobile of
           Inl e \<Rightarrow> (Inl e, d1)
         | Inr mobile_no \<Rightarrow>
             (let new_id = codinCluc_id_seq d1 + 1;
                  d2 = d1\<lparr>codinCluc_id_seq := new_id\<rparr>
              in case subject of
                   None \<Rightarrow> (Inl Not_null_violation, d2)
                 | Some sj \<Rightarrow>
                (case description of
                   None \<Rightarrow> (Inl Not_null_violation, d2)
                 | Some ds \<Rightarrow>
                (case mobile_no of
                   None \<Rightarrow> (Inl Not_null_violation, d2)
                 | Some mb \<Rightarrow>
                     if Some caseId \<in> set (map cc_case_id (codinCluc d2))
                     then (Inl Unique_violation, d2)
                     else
                       (Inr (),
                        d2\<lparr>codinCluc := codinCluc d2 @
                             [\<lparr>cc_id = new_id, cc_case_id = Some caseId, cc_subject = sj,
                               cc_description = ds, cc_category = category,
                               cc_image_path = image_path, cc_mobile_no = mb,
                               cc_location = location, cc_created_at = now,
                               cc_status = ''Submitted''\<rparr>]\<rparr>))))))"

text \<open>\<^verbatim>\<open>SELECT * FROM codinCluc WHERE UPPER(case_id) = UPPER($1)\<close>\<close>

definition select_codinCluc_by_case_id ::
  "string \<Rightarrow> db \<Rightarrow> (db_error + complaint list) \<times> db" where
  "select_codinCluc_by_case_id caseId d =
     (let d1 = sent d in
      if \<not> connected d then (Inl Connection_failure, d1)
      else (Inr (filter (\<lambda>r. map_option UPPER (cc_case_id r) = Some (UPPER caseId))
                   (codinCluc d)), d1))"

text \<open>
  \<^verbatim>\<open>INSERT INTO missing_persons (case_id, name, age, gender, last_seen_date, last_seen_location, description, media_path, reporter_mobile) VALUES ($1, ..., $9)\<close>.
  \<^verbatim>\<open>case_id\<close> is \<^verbatim>\<open>UNIQUE NOT NULL\<close>, \<^verbatim>\<open>name\<close> is \<^verbatim>\<open>NOT NULL\<close>.
\<close>

definition insert_missing_persons ::
  "pg_input \<Rightarrow> timestamp \<Rightarrow> string \<Rightarrow> string option \<Rightarrow> string option \<Rightarrow> string option \<Rightarrow>
   string option \<Rightarrow> string option \<Rightarrow> string option \<Rightarrow> string option \<Rightarrow> string option \<Rightarrow>
   db \<Rightarrow> (db_error + unit) \<times> db" where
  "insert_missing_persons pg now caseId name age gender lastSeen location description
     media_path reporter_mobile d =
     (let d1 = sent d in
      if \<not> connected d then (Inl Connection_failure, d1)
      else
        (case bind (int4in pg) age of
           Inl e \<Rightarrow> (Inl e, d1)
         | Inr age_v \<Rightarrow>
        (case bind (date_in pg) lastSeen of
           Inl e \<Rightarrow> (Inl e, d1)
         | Inr last_seen_date \<Rightarrow>
        (case bind (int8in pg) reporter_mobile of
           Inl e \<Rightarrow> (Inl e, d1)
         | Inr mobile \<Rightarrow>
             (let new_id = missing_persons_id_seq d1 + 1;
                  d2 = d1\<lparr>missing_persons_id_seq := new_id\<rparr>
              in case name of
                   None \<Rightarrow> (Inl Not_null_violation, d2)
                 | Some nm \<Rightarrow>
                     if caseId \<in> set (map mp_case_id (missing_persons d2))
                     then (Inl Unique_violation, d2)
                     else
                       (Inr (),
                        d2\<lparr>missing_persons := missing_persons d2 @
                             [\<lparr>mp_id = new_id, mp_case_id = caseId, mp_name = nm,
                               mp_age = age_v, mp_gender = gender,
                               mp_last_seen_date = last_seen_date,
                               mp_last_seen_location = location,
                               mp_description = description, mp_media_path = media_path,
                               mp_reporter_mobile = mobile, mp_status = ''Active'',
                               mp_created_at = now\<rparr>]\<rparr>))))))"


section \<open>The request handlers\<close>

text \<open>
  What a handler answers. The message texts of the program are values of \<open>message\<close>:
  "All fields are required", "Server error", "Invalid or expired OTP", "Database error",
  "Missing required fields.", "Error submitting complaint to the database.",
  "Error submitting report to the database.", "Please enter a Case ID",
  "Case ID not found" and (tracking) "Server error".
\<close>

datatype message =
    All_fields_are_required
  | Server_error
  | Invalid_or_expired_OTP
  | Database_error
  | Missing_required_fields
  | Error_submitting_complaint
  | Error_submitting_report
  | Please_enter_a_Case_ID
  | Case_ID_not_found
  | Track_server_error

record stats =
  total :: int
  resolved :: int
  pending :: int

text \<open>
  \<open>Json_failure code m\<close> is \<^verbatim>\<open>res.status(code).json({ success: false, message: m })\<close>;
  \<open>Json_success b\<close> is \<^verbatim>\<open>res.json({ success: b })\<close>;
  \<open>Json_otp otp\<close> is \<^verbatim>\<open>res.json({ success: true, otp })\<close>;
  \<open>Json_complaint\<close> carries \<^verbatim>\<open>caseId\<close>, \<^verbatim>\<open>subject\<close>, \<^verbatim>\<open>category\<close> and
  \<^verbatim>\<open>location\<close> of a successful submission, \<open>Json_report\<close> the \<^verbatim>\<open>caseId\<close> of a
  missing-person report; the others render a view or redirect.
\<close>

datatype reply =
    Json_failure nat message
  | Json_success bool
  | Json_otp string
  | Json_complaint string "string option" "string option" "string option"
  | Json_report string
  | Render_adminLogin message
  | Redirect string
  | Render_trackStatusForm "complaint option" "message option"
  | Render_home stats

text \<open>\<^verbatim>\<open>n || 0\<close> on a number.\<close>

definition or_zero :: "int \<Rightarrow> int" where
  "or_zero n = (if n = 0 then 0 else n)"

text \<open>
  \<^verbatim>\<open>GET /\<close>: the counts shown on the home page. The database delivers the two counts
  as decimal text and \<^verbatim>\<open>parseInt\<close> reads them back; the model hands the numbers over.
\<close>

definition home :: "db \<Rightarrow> reply \<times> db" where
  "home d =
     (case select_stats d of
        (Inr (total_count, resolved_count), d1) \<Rightarrow>
          (let total = or_zero total_count;
               resolved = or_zero resolved_count;
               pending = total - resolved
           in (Render_home \<lparr>total = total, resolved = resolved, pending = pending\<rparr>, d1))
      | (Inl e, d1) \<Rightarrow> (Render_home \<lparr>total = 0, resolved = 0, pending = 0\<rparr>, d1))"

text \<open>
  \<^verbatim>\<open>POST /adminLogin\<close>. \<open>date_now\<close> is \<^verbatim>\<open>Date.now()\<close>, an instant in
  milliseconds; \<open>now\<close> is the reading of the database's \<^verbatim>\<open>NOW()\<close> that dates a new
  row. The program binds the \<^verbatim>\<open>Date\<close> object \<^verbatim>\<open>expires\<close> to the zone-less column
  \<^verbatim>\<open>otp_expires\<close>: the driver writes the date as local time of the application with
  its UTC offset, and the database drops the offset of a text it reads as
  \<^verbatim>\<open>TIMESTAMP\<close>. What is stored is the wall-clock reading of the expiry in the time
  zone of the application (\<open>app_zone\<close>).
\<close>

definition adminLogin ::
  "pg_input \<Rightarrow> random_source \<Rightarrow> int \<Rightarrow> int \<Rightarrow> timestamp \<Rightarrow> body \<Rightarrow> db \<Rightarrow> reply \<times> db" where
  "adminLogin pg random date_now app_zone now body d =
     (let name = body ''name''; department_name = body ''department_name'';
          department_id = body ''department_id''; mobile_no = body ''mobile_no''
      in
      if \<not> truthy name \<or> \<not> truthy department_name \<or> \<not> truthy department_id \<or>
         \<not> truthy mobile_no
      then (Json_failure 200 All_fields_are_required, d)
      else
        (let otp = toString \<lfloor>100000 + random 0 * 900000\<rfloor>;
             expires = (date_now + 5 * 60 * 1000) * 1000 + app_zone
         in case select_admins_by_department department_id d of
              (Inl e, d1) \<Rightarrow> (Json_failure 200 Server_error, d1)
            | (Inr existingAdmin, d1) \<Rightarrow>
                if length existingAdmin > 0
                then
                  (case update_admins_otp (Some otp) (Some expires) department_id d1 of
                     (Inl e, d2) \<Rightarrow> (Json_failure 200 Server_error, d2)
                   | (Inr u, d2) \<Rightarrow> (Json_otp otp, d2))
                else
                  (case insert_admins pg now name department_name department_id mobile_no
                          (Some otp) (Some expires) d1 of
                     (Inl e, d2) \<Rightarrow> (Json_failure 200 Server_error, d2)
                   | (Inr u, d2) \<Rightarrow> (Json_otp otp, d2))))"

text \<open>
  \<^verbatim>\<open>POST /verify-admin-otp\<close>; \<open>now\<close> is the database's \<^verbatim>\<open>NOW()\<close>,
  \<open>session_zone\<close> the time zone of the database session.
\<close>

definition verify_admin_otp :: "timestamp \<Rightarrow> int \<Rightarrow> body \<Rightarrow> db \<Rightarrow> reply \<times> db" where
  "verify_admin_otp now session_zone body d =
     (let otpInput = body ''otpInput''
      in case select_admins_by_otp now session_zone otpInput d of
           (Inl e, d1) \<Rightarrow> (Render_adminLogin Database_error, d1)
         | (Inr rows, d1) \<Rightarrow>
             if length rows = 0 then (Render_adminLogin Invalid_or_expired_OTP, d1)
             else (Redirect ''/adminDashboard'', d1))"

text \<open>\<^verbatim>\<open>POST /mark-resolved/:id\<close>; \<open>ident\<close> is the path parameter.\<close>

definition mark_resolved :: "pg_input \<Rightarrow> string \<Rightarrow> db \<Rightarrow> reply \<times> db" where
  "mark_resolved pg ident d =
     (case update_codinCluc_resolved pg ident d of
        (Inr u, d1) \<Rightarrow> (Json_success True, d1)
      | (Inl e, d1) \<Rightarrow> (Json_success False, d1))"

text \<open>
  \<^verbatim>\<open>POST /submitComplaint\<close>. \<open>file\<close> is the name under which the upload middleware
  stored the optional media file.
\<close>

definition submitComplaint ::
  "pg_input \<Rightarrow> random_source \<Rightarrow> timestamp \<Rightarrow> body \<Rightarrow> string option \<Rightarrow> db \<Rightarrow> reply \<times> db" where
  "submitComplaint pg random now body file d =
     (let subject = body ''subject''; description = body ''description'';
          location = body ''location''; mobile = body ''mobile''; otp = body ''otp'';
          category = body ''category'';
          image_path = (case file of Some filename \<Rightarrow> Some (''/uploads/'' @ filename)
                        | None \<Rightarrow> None)
      in
      if \<not> truthy subject \<or> \<not> truthy description \<or> \<not> truthy location \<or> \<not> truthy category
      then (Json_failure 400 Missing_required_fields, d)
      else
        (let caseId = generateCaseId random
         in case insert_codinCluc pg now caseId subject description category image_path
                   location mobile d of
              (Inr u, d1) \<Rightarrow> (Json_complaint caseId subject category location, d1)
            | (Inl e, d1) \<Rightarrow> (Json_failure 500 Error_submitting_complaint, d1)))"

text \<open>\<^verbatim>\<open>POST /trackStatus\<close>: the first row of the answer is shown.\<close>

definition trackStatus :: "body \<Rightarrow> db \<Rightarrow> reply \<times> db" where
  "trackStatus body d =
     (case body ''caseId'' of
        None \<Rightarrow> (Render_trackStatusForm None (Some Please_enter_a_Case_ID), d)
      | Some caseId \<Rightarrow>
          if caseId = [] then (Render_trackStatusForm None (Some Please_enter_a_Case_ID), d)
          else
            (case select_codinCluc_by_case_id (trim caseId) d of
               (Inl e, d1) \<Rightarrow> (Render_trackStatusForm None (Some Track_server_error), d1)
             | (Inr rows, d1) \<Rightarrow>
                 (case rows of
                    [] \<Rightarrow> (Render_trackStatusForm None (Some Case_ID_not_found), d1)
                  | complaint # rest \<Rightarrow> (Render_trackStatusForm (Some complaint) None, d1))))"

text \<open>\<^verbatim>\<open>POST /submit-missing-person\<close>\<close>

definition submit_missing_person ::
  "pg_input \<Rightarrow> random_source \<Rightarrow> timestamp \<Rightarrow> body \<Rightarrow> string option \<Rightarrow> db \<Rightarrow> reply \<times> db" where
  "submit_missing_person pg random now body file d =
     (let name = body ''name''; age = body ''age''; gender = body ''gender'';
          lastSeen = body ''lastSeen''; location = body ''location'';
          description = body ''description''; reporter_mobile = body ''reporter_mobile'';
          media_path = (case file of Some filename \<Rightarrow> Some (''/uploads/'' @ filename)
                        | None \<Rightarrow> None)
      in
      if \<not> truthy name \<or> \<not> truthy age \<or> \<not> truthy gender \<or> \<not> truthy lastSeen \<or>
         \<not> truthy location \<or> \<not> truthy reporter_mobile
      then (Json_failure 400 Missing_required_fields, d)
      else
        (let caseId = generateCaseId random
         in case insert_missing_persons pg now caseId name age gender lastSeen location
                   description media_path reporter_mobile d of
              (Inr u, d1) \<Rightarrow> (Json_report caseId, d1)
            | (Inl e, d1) \<Rightarrow> (Json_failure 500 Error_submitting_report, d1)))"


section \<open>Properties of reachable stores\<close>

text \<open>
  Case identifiers enter \<^verbatim>\<open>codinCluc\<close> through \<open>submitComplaint\<close> only, so every stored
  identifier has the generator's shape, and the \<^verbatim>\<open>UNIQUE\<close> constraint keeps them apart.
\<close>

definition is_case_id :: "string \<Rightarrow> bool" where
  "is_case_id s \<longleftrightarrow> take 5 s = ''CASE-'' \<and> length s = 11 \<and> set (drop 5 s) \<subseteq> set chars"

definition case_ids_wf :: "db \<Rightarrow> bool" where
  "case_ids_wf d \<longleftrightarrow>
     (\<forall>r \<in> set (codinCluc d). case cc_case_id r of None \<Rightarrow> False | Some c \<Rightarrow> is_case_id c) \<and>
     distinct (map cc_case_id (codinCluc d))"

text \<open>
  Expiry values enter \<^verbatim>\<open>admins\<close> through \<open>adminLogin\<close> only, each five minutes
  after the wall-clock reading of its request; while the wall clock of the application
  does not run backwards no stored expiry lies beyond five minutes after the present
  reading.
\<close>

definition otp_expiries_le :: "timestamp \<Rightarrow> db \<Rightarrow> bool" where
  "otp_expiries_le bound d \<longleftrightarrow>
     (\<forall>r \<in> set (admins d). case ad_otp_expires r of None \<Rightarrow> True | Some e \<Rightarrow> e \<le> bound)"


section \<open>Sample requests\<close>

text \<open>
  An instance of the input functions that accepts unsigned decimal numerals below a bound
  (dates written as eight digits), and the requests on which the handlers are run below.
\<close>

definition decimal :: "string \<Rightarrow> int option" where
  "decimal s =
     (if s \<noteq> [] \<and> set s \<subseteq> set ''0123456789''
      then Some (foldl (\<lambda>n c. 10 * n +
                   int (length (takeWhile (\<lambda>x. x \<noteq> c) ''0123456789''))) 0 s)
      else None)"

definition decimal_below :: "int \<Rightarrow> string \<Rightarrow> int option" where
  "decimal_below bound s =
     (case decimal s of None \<Rightarrow> None | Some n \<Rightarrow> if n < bound then Some n else None)"

definition decimal_input :: pg_input where
  "decimal_input = \<lparr>int4in = decimal_below (2 ^ 31), int8in = decimal_below (2 ^ 63),
     date_in = decimal_below 100000000\<rparr>"

definition pothole :: body where
  "pothole = [''subject'' \<mapsto> ''Pothole'', ''description'' \<mapsto> ''Large pothole'',
     ''category'' \<mapsto> ''Roads'', ''location'' \<mapsto> ''Main St'', ''mobile'' \<mapsto> ''9876543210'']"

definition pothole_without_contact :: body where
  "pothole_without_contact = [''subject'' \<mapsto> ''Pothole'',
     ''description'' \<mapsto> ''Large pothole'', ''category'' \<mapsto> ''Roads'',
     ''location'' \<mapsto> ''Main St'']"

definition missing_child :: body where
  "missing_child = [''name'' \<mapsto> ''Ravi'', ''age'' \<mapsto> ''9'', ''gender'' \<mapsto> ''male'',
     ''lastSeen'' \<mapsto> ''20240115'', ''location'' \<mapsto> ''Station Road'',
     ''reporter_mobile'' \<mapsto> ''9876543210'']"

definition login_of :: "string \<Rightarrow> body" where
  "login_of department = [''name'' \<mapsto> ''Asha'', ''department_name'' \<mapsto> ''Roads'',
     ''department_id'' \<mapsto> department, ''mobile_no'' \<mapsto> ''9876543210'']"

text \<open>The store after the pothole complaint was submitted, and after it was resolved.\<close>

definition one_complaint :: db where
  "one_complaint = snd (submitComplaint decimal_input (\<lambda>i. 1 / 2) 1000 pothole None empty_db)"

definition resolved_once :: db where
  "resolved_once = snd (mark_resolved decimal_input ''1'' one_complaint)"

text \<open>
  The store after a missing-person report followed the pothole complaint, both requests
  having drawn the same random numbers.
\<close>

definition both_tables :: db where
  "both_tables = snd (submit_missing_person decimal_input (\<lambda>i. 1 / 2) 3000 missing_child None one_complaint)"

text \<open>
  Admin logins, the application running on UTC: department \<open>D1\<close> at time 0 (code
  325000); then either \<open>D1\<close> again after one minute (code 550000), or department
  \<open>D2\<close> after one minute (code 325000 as well) followed by \<open>D1\<close> after two minutes
  (code 550000). And the login of \<open>D1\<close> at time 0 with the application running five and
  a half hours east of UTC.
\<close>

definition first_login :: db where
  "first_login = snd (adminLogin decimal_input (\<lambda>i. 1 / 4) 0 0 0 (login_of ''D1'') empty_db)"

definition other_login :: db where
  "other_login = snd (adminLogin decimal_input (\<lambda>i. 1 / 4) 60000 0 60000000 (login_of ''D2'') first_login)"

definition second_login :: db where
  "second_login = snd (adminLogin decimal_input (\<lambda>i. 1 / 2) 120000 0 120000000 (login_of ''D1'') other_login)"


definition relogin :: db where
  "relogin = snd (adminLogin decimal_input (\<lambda>i. 1 / 2) 60000 0 60000000 (login_of ''D1'') first_login)"


section \<open>The case identifier generator: shape of the identifiers\<close>

lemma charAt_chars_in_range:
  assumes "0 \<le> r" "r < 1"
  shows "\<exists>c. charAt chars \<lfloor>r * real (length chars)\<rfloor> = [c] \<and> c \<in> set chars"
proof -
  let ?n = "length chars"
  have n: "0 < ?n" by (simp add: chars_def)
  have lo: "0 \<le> \<lfloor>r * real ?n\<rfloor>" using assms by simp
  have "r * real ?n < real ?n" using assms n by simp
  then have hi: "\<lfloor>r * real ?n\<rfloor> < int ?n" by (simp add: floor_less_iff)
  from lo hi have "nat \<lfloor>r * real ?n\<rfloor> < ?n" by linarith
  then have "chars ! nat \<lfloor>r * real ?n\<rfloor> \<in> set chars" by (rule nth_mem)
  with lo hi show ?thesis by (simp add: charAt_def)
qed

lemma caseId_loop_shape:
  "i \<le> 6 \<Longrightarrow> \<forall>k<6. 0 \<le> random k \<and> random k < 1 \<Longrightarrow>
   \<exists>suffix. caseId_loop random i ident = ident @ suffix \<and> length suffix = 6 - i \<and>
     set suffix \<subseteq> set chars"
proof (induction random i ident rule: caseId_loop.induct)
  case (1 random i ident)
  show ?case
  proof (cases "i < 6")
    case False
    with "1.prems" show ?thesis by (simp add: caseId_loop.simps)
  next
    case True
    with "1.prems" obtain c where c: "charAt chars \<lfloor>random i * real (length chars)\<rfloor> = [c]"
      "c \<in> set chars"
      using charAt_chars_in_range by blast
    from True have "i + 1 \<le> 6" by simp
    from "1.IH" [OF True this "1.prems"(2)] obtain suffix where
      s: "caseId_loop random (i + 1) (ident @ charAt chars \<lfloor>random i * real (length chars)\<rfloor>)
            = (ident @ charAt chars \<lfloor>random i * real (length chars)\<rfloor>) @ suffix"
         "length suffix = 6 - (i + 1)" "set suffix \<subseteq> set chars"
      by blast
    have "caseId_loop random i ident = ident @ (c # suffix)"
      using True s(1) c(1) by (subst caseId_loop.simps) simp
    moreover have "length (c # suffix) = 6 - i" using True s(2) by simp
    moreover have "set (c # suffix) \<subseteq> set chars" using c(2) s(3) by simp
    ultimately show ?thesis by blast
  qed
qed

lemma generateCaseId_suffix:
  assumes "\<forall>k<6. 0 \<le> random k \<and> random k < 1"
  shows "\<exists>suffix. generateCaseId random = ''CASE-'' @ suffix \<and> length suffix = 6 \<and>
           set suffix \<subseteq> set chars"
proof -
  from caseId_loop_shape [of 0 random "''CASE-''"] assms
  obtain suffix where "caseId_loop random 0 ''CASE-'' = ''CASE-'' @ suffix"
    "length suffix = 6" "set suffix \<subseteq> set chars"
    by auto
  then show ?thesis unfolding generateCaseId_def by blast
qed

text \<open>
  C6. Whenever the six draws lie in \<open>[0, 1)\<close>, as those of \<^verbatim>\<open>Math.random\<close> do, the
  identifier returned by \<open>generateCaseId\<close> is the constant prefix \<open>CASE-\<close> followed by
  exactly six characters, each a member of \<open>chars\<close>, the alphabet of the 26 capital
  letters and the 10 digits, which has 36 distinct symbols.
\<close>

theorem generateCaseId_shape:
  assumes "\<forall>k<6. 0 \<le> random k \<and> random k < 1"
  shows "\<exists>suffix. generateCaseId random = ''CASE-'' @ suffix \<and> length suffix = 6 \<and>
           set suffix \<subseteq> set chars \<and>
           chars = ''ABCDEFGHIJKLMNOPQRSTUVWXYZ0123456789'' \<and> card (set chars) = 36"
proof -
  have "card (set chars) = 36" by (simp add: chars_def)
  with generateCaseId_suffix [OF assms] show ?thesis by (auto simp: chars_def)
qed

theorem generateCaseId_shape_witness:
  "(0::real) \<le> 1 / 2 \<and> (1::real) / 2 < 1 \<and>
   (\<exists>suffix. generateCaseId (\<lambda>i. 1 / 2) = ''CASE-'' @ suffix \<and> length suffix = 6 \<and>
      set suffix \<subseteq> set chars \<and>
      chars = ''ABCDEFGHIJKLMNOPQRSTUVWXYZ0123456789'' \<and> card (set chars) = 36)"
  using generateCaseId_shape [of "\<lambda>i. 1 / 2"] by simp


section \<open>Aggregate counts\<close>

text \<open>
  C8. In every state of the store, reachable or not, the statistics handed to the home
  page satisfy \<open>pending = total - resolved\<close>: the store has no pending count, the
  handler computes it from the two counts it queried (and shows three zeros when the
  query fails).
\<close>

theorem home_pending:
  "\<exists>st d1. home d = (Render_home st, d1) \<and> pending st = total st - resolved st"
proof (cases "connected d")
  case True
  then have "home d =
      (Render_home \<lparr>total = or_zero (int (length (codinCluc d))),
         resolved = or_zero (int (length (filter (\<lambda>r. cc_status r = ''Resolved'') (codinCluc d)))),
         pending = or_zero (int (length (codinCluc d))) -
           or_zero (int (length (filter (\<lambda>r. cc_status r = ''Resolved'') (codinCluc d))))\<rparr>,
       sent d)"
    by (simp add: home_def select_stats_def Let_def)
  then show ?thesis by simp
next
  case False
  then have "home d = (Render_home \<lparr>total = 0, resolved = 0, pending = 0\<rparr>, sent d)"
    by (simp add: home_def select_stats_def Let_def)
  then show ?thesis by simp
qed


section \<open>The sample requests, evaluated\<close>

lemma submitComplaint_sample:
  "submitComplaint decimal_input (\<lambda>i. 1 / 2) 1000 pothole None empty_db =
    (Json_complaint ''CASE-SSSSSS'' (Some ''Pothole'') (Some ''Roads'') (Some ''Main St''),
     \<lparr>connected = True, queries = 1, admins = [], admins_id_seq = 0,
       codinCluc = [\<lparr>cc_id = 1, cc_case_id = Some ''CASE-SSSSSS'', cc_subject = ''Pothole'',
          cc_description = ''Large pothole'', cc_category = Some ''Roads'',
          cc_image_path = None, cc_mobile_no = 9876543210, cc_location = Some ''Main St'',
          cc_created_at = 1000, cc_status = ''Submitted''\<rparr>],
       codinCluc_id_seq = 1, missing_persons = [], missing_persons_id_seq = 0\<rparr>)"
  by (simp add: submitComplaint_def insert_codinCluc_def bind_def sent_def truthy_def
      generateCaseId_def caseId_loop.simps chars_def charAt_def
      decimal_input_def decimal_below_def decimal_def pothole_def empty_db_def Let_def)

lemma one_complaint_eq:
  "one_complaint =
     \<lparr>connected = True, queries = 1, admins = [], admins_id_seq = 0,
       codinCluc = [\<lparr>cc_id = 1, cc_case_id = Some ''CASE-SSSSSS'', cc_subject = ''Pothole'',
          cc_description = ''Large pothole'', cc_category = Some ''Roads'',
          cc_image_path = None, cc_mobile_no = 9876543210, cc_location = Some ''Main St'',
          cc_created_at = 1000, cc_status = ''Submitted''\<rparr>],
       codinCluc_id_seq = 1, missing_persons = [], missing_persons_id_seq = 0\<rparr>"
  by (simp add: one_complaint_def submitComplaint_sample)

lemma resolved_once_eq:
  "resolved_once =
     \<lparr>connected = True, queries = 2, admins = [], admins_id_seq = 0,
       codinCluc = [\<lparr>cc_id = 1, cc_case_id = Some ''CASE-SSSSSS'', cc_subject = ''Pothole'',
          cc_description = ''Large pothole'', cc_category = Some ''Roads'',
          cc_image_path = None, cc_mobile_no = 9876543210, cc_location = Some ''Main St'',
          cc_created_at = 1000, cc_status = ''Resolved''\<rparr>],
       codinCluc_id_seq = 1, missing_persons = [], missing_persons_id_seq = 0\<rparr>"
  by (simp add: resolved_once_def one_complaint_eq mark_resolved_def update_codinCluc_resolved_def sent_def
      decimal_input_def decimal_below_def decimal_def Let_def)


section \<open>Resolving a complaint\<close>

lemma resolve_rows:
  assumes "r \<in> set rows"
  defines "f \<equiv> \<lambda>x. if cc_id x = cc_id r then x\<lparr>cc_status := ''Resolved''\<rparr> else x"
  shows "r\<lparr>cc_status := ''Resolved''\<rparr> \<in> set (map f rows)"
    and "cc_status r = ''Resolved'' \<Longrightarrow> r \<in> set (map f rows)"
    and "\<forall>x \<in> set (map f rows). cc_id x = cc_id r \<longrightarrow> cc_status x = ''Resolved''"
proof -
  have "f r \<in> f ` set rows" using assms(1) by (rule imageI)
  moreover have fr: "f r = r\<lparr>cc_status := ''Resolved''\<rparr>" by (simp add: f_def)
  ultimately show a: "r\<lparr>cc_status := ''Resolved''\<rparr> \<in> set (map f rows)" by simp
  show "r \<in> set (map f rows)" if "cc_status r = ''Resolved''"
  proof -
    have "r\<lparr>cc_status := cc_status r\<rparr> = r" by simp
    with that have "r\<lparr>cc_status := ''Resolved''\<rparr> = r" by simp
    with a show ?thesis by simp
  qed
  show "\<forall>x \<in> set (map f rows). cc_id x = cc_id r \<longrightarrow> cc_status x = ''Resolved''"
  proof
    fix x assume "x \<in> set (map f rows)"
    then obtain y where y: "y \<in> set rows" "x = f y" by auto
    show "cc_id x = cc_id r \<longrightarrow> cc_status x = ''Resolved''"
    proof (cases "cc_id y = cc_id r")
      case True then show ?thesis by (simp add: y(2) f_def)
    next
      case False then show ?thesis by (simp add: y(2) f_def)
    qed
  qed
qed

text \<open>
  C5. When the database is reachable and the path parameter denotes the row id of a stored
  complaint \<open>r\<close>, \<open>mark_resolved\<close> answers \<^verbatim>\<open>{ success: true }\<close> whatever the status
  of \<open>r\<close> was; afterwards the table holds \<open>r\<close> with status \<open>Resolved\<close> (so \<open>r\<close>
  itself, unchanged, when it was resolved already), and every row with the id of \<open>r\<close> has
  status \<open>Resolved\<close>.
\<close>

theorem mark_resolved_from_any_state:
  assumes "connected d" and "int4in pg ident = Some (cc_id r)" and "r \<in> set (codinCluc d)"
  shows "fst (mark_resolved pg ident d) = Json_success True \<and>
         r\<lparr>cc_status := ''Resolved''\<rparr> \<in> set (codinCluc (snd (mark_resolved pg ident d))) \<and>
         (cc_status r = ''Resolved'' \<longrightarrow> r \<in> set (codinCluc (snd (mark_resolved pg ident d)))) \<and>
         (\<forall>x \<in> set (codinCluc (snd (mark_resolved pg ident d))).
            cc_id x = cc_id r \<longrightarrow> cc_status x = ''Resolved'')"
proof -
  let ?f = "\<lambda>x. if cc_id x = cc_id r then x\<lparr>cc_status := ''Resolved''\<rparr> else x"
  have m: "mark_resolved pg ident d =
             (Json_success True, (sent d)\<lparr>codinCluc := map ?f (codinCluc d)\<rparr>)"
    using assms(1,2)
    by (simp add: mark_resolved_def update_codinCluc_resolved_def sent_def Let_def)
  have rows: "codinCluc (snd (mark_resolved pg ident d)) = map ?f (codinCluc d)"
    by (simp only: m snd_conv) simp
  have "fst (mark_resolved pg ident d) = Json_success True" by (simp only: m fst_conv)
  with resolve_rows [OF assms(3)] show ?thesis
    unfolding rows by blast
qed

theorem mark_resolved_from_any_state_witness:
  "connected resolved_once \<and> int4in decimal_input ''1'' = Some 1 \<and>
   map cc_status (codinCluc resolved_once) = [''Resolved''] \<and>
   fst (mark_resolved decimal_input ''1'' resolved_once) = Json_success True \<and>
   hd (codinCluc resolved_once) \<in> set (codinCluc (snd (mark_resolved decimal_input ''1'' resolved_once)))"
  using mark_resolved_from_any_state [of resolved_once decimal_input "''1''" "hd (codinCluc resolved_once)"]
  by (simp add: resolved_once_eq decimal_input_def decimal_below_def decimal_def)

text \<open>
  C4, as the claim states it, fails: with one stored complaint, of row id 1, resolving the
  row id 2 is answered with \<^verbatim>\<open>{ success: true }\<close>, not with a failure.
\<close>

theorem mark_resolved_unknown_id_counterexample:
  "map cc_id (codinCluc one_complaint) = [1] \<and>
   int4in decimal_input ''2'' = Some 2 \<and>
   fst (mark_resolved decimal_input ''2'' one_complaint) = Json_success True"
  by (simp add: one_complaint_eq mark_resolved_def update_codinCluc_resolved_def sent_def
      decimal_input_def decimal_below_def decimal_def Let_def)

lemma map_unchanged: "\<forall>x \<in> set xs. \<not> P x \<Longrightarrow> map (\<lambda>x. if P x then f x else x) xs = xs"
  by (induction xs) auto

text \<open>
  C4, amended. When the identifier matches no stored complaint, \<open>mark_resolved\<close> changes
  no table (the statement is counted, nothing else happens), and it reports
  \<^verbatim>\<open>success: true\<close> exactly when the database is reachable and accepts the identifier
  as an integer; \<^verbatim>\<open>success: false\<close> is the answer to a store error only.
\<close>

theorem mark_resolved_unknown_id:
  assumes "\<forall>r \<in> set (codinCluc d). int4in pg ident \<noteq> Some (cc_id r)"
  shows "fst (mark_resolved pg ident d) = Json_success (connected d \<and> int4in pg ident \<noteq> None) \<and>
         snd (mark_resolved pg ident d) = sent d \<and>
         codinCluc (sent d) = codinCluc d \<and> admins (sent d) = admins d \<and>
         missing_persons (sent d) = missing_persons d"
proof (cases "connected d")
  case False
  then show ?thesis
    by (simp add: mark_resolved_def update_codinCluc_resolved_def sent_def Let_def)
next
  case True
  show ?thesis
  proof (cases "int4in pg ident")
    case None
    with True show ?thesis
      by (simp add: mark_resolved_def update_codinCluc_resolved_def sent_def Let_def)
  next
    case (Some k)
    with assms have "\<forall>r \<in> set (codinCluc d). \<not> cc_id r = k" by auto
    then have "map (\<lambda>r. if cc_id r = k then r\<lparr>cc_status := ''Resolved''\<rparr> else r) (codinCluc d)
                 = codinCluc d"
      by (rule map_unchanged)
    with True Some show ?thesis
      by (simp add: mark_resolved_def update_codinCluc_resolved_def sent_def Let_def)
  qed
qed

theorem mark_resolved_unknown_id_witness:
  "int4in decimal_input ''2'' = Some 2 \<and> map cc_id (codinCluc one_complaint) = [1] \<and>
   fst (mark_resolved decimal_input ''2'' one_complaint) = Json_success True \<and>
   codinCluc (snd (mark_resolved decimal_input ''2'' one_complaint)) = codinCluc one_complaint"
  using mark_resolved_unknown_id [of one_complaint decimal_input "''2''"]
  by (simp add: one_complaint_eq decimal_input_def decimal_below_def decimal_def sent_def)


section \<open>Submitting a complaint\<close>

lemma submitComplaint_validation:
  assumes "\<not> truthy (body ''subject'') \<or> \<not> truthy (body ''description'') \<or>
           \<not> truthy (body ''location'') \<or> \<not> truthy (body ''category'')"
  shows "submitComplaint pg random now body file d = (Json_failure 400 Missing_required_fields, d)"
  using assms by (auto simp: submitComplaint_def Let_def)

text \<open>
  C1, at the input where the program departs from it: the pothole complaint without its
  contact field is not refused by the validation (the answer is not the 400 of
  \<open>submitComplaint_validation\<close>); a statement is sent to the store, and the answer is the
  500 of a store error.
\<close>

theorem submitComplaint_missing_contact_reaches_store:
  "pothole_without_contact ''mobile'' = None \<and>
   fst (submitComplaint decimal_input (\<lambda>i. 1 / 2) 1000 pothole_without_contact None empty_db) =
     Json_failure 500 Error_submitting_complaint \<and>
   queries (snd (submitComplaint decimal_input (\<lambda>i. 1 / 2) 1000 pothole_without_contact None empty_db)) = 1 \<and>
   queries empty_db = 0"
  by (simp add: submitComplaint_def insert_codinCluc_def bind_def sent_def truthy_def
      decimal_input_def decimal_below_def decimal_def pothole_without_contact_def empty_db_def Let_def)

theorem submitComplaint_missing_contact_reaches_store_witness:
  "fst (submitComplaint decimal_input (\<lambda>i. 1 / 2) 1000 pothole_without_contact None empty_db)
     \<noteq> Json_failure 400 Missing_required_fields \<and>
   queries (snd (submitComplaint decimal_input (\<lambda>i. 1 / 2) 1000 pothole_without_contact None
      empty_db)) \<noteq> queries empty_db"
  using submitComplaint_missing_contact_reaches_store by simp

text \<open>
  C10. A submission whose subject, description, category and location are present and
  whose contact field \<^verbatim>\<open>mobile\<close> is absent passes the validation: with the database
  reachable, the \<^verbatim>\<open>INSERT\<close> is sent (one statement more is counted) and is rejected
  with a \<^verbatim>\<open>NOT NULL\<close> violation, no row is added, and the caller receives status 500
  with the generic message of a store error, not the 400 of the validation.
\<close>

theorem submitComplaint_without_contact:
  assumes "truthy (body ''subject'')" "truthy (body ''description'')"
    "truthy (body ''category'')" "truthy (body ''location'')"
    and "body ''mobile'' = None" and "connected d"
  shows "fst (insert_codinCluc pg now (generateCaseId random) (body ''subject'')
            (body ''description'') (body ''category'') image_path (body ''location'')
            (body ''mobile'') d) = Inl Not_null_violation \<and>
         fst (submitComplaint pg random now body file d) =
            Json_failure 500 Error_submitting_complaint \<and>
         queries (snd (submitComplaint pg random now body file d)) = Suc (queries d) \<and>
         codinCluc (snd (submitComplaint pg random now body file d)) = codinCluc d"
proof -
  from assms(1,2) obtain sj ds where f: "body ''subject'' = Some sj" "body ''description'' = Some ds"
    by (auto simp: truthy_def split: option.splits)
  have ins: "insert_codinCluc pg now (generateCaseId random) (body ''subject'')
               (body ''description'') (body ''category'') ip (body ''location'')
               (body ''mobile'') d =
             (Inl Not_null_violation, (sent d)\<lparr>codinCluc_id_seq := codinCluc_id_seq d + 1\<rparr>)"
    for ip
    using assms(5,6) f by (simp add: insert_codinCluc_def bind_def sent_def Let_def)
  have sub: "submitComplaint pg random now body file d =
             (Json_failure 500 Error_submitting_complaint,
              (sent d)\<lparr>codinCluc_id_seq := codinCluc_id_seq d + 1\<rparr>)"
    using assms(1-4) by (simp add: submitComplaint_def ins Let_def)
  show ?thesis by (simp add: ins sub sent_def)
qed

theorem submitComplaint_without_contact_witness:
  "truthy (pothole_without_contact ''subject'') \<and> truthy (pothole_without_contact ''description'') \<and>
   truthy (pothole_without_contact ''category'') \<and> truthy (pothole_without_contact ''location'') \<and>
   pothole_without_contact ''mobile'' = None \<and> connected one_complaint \<and>
   fst (submitComplaint decimal_input (\<lambda>i. 0) 2000 pothole_without_contact None one_complaint) =
            Json_failure 500 Error_submitting_complaint \<and>
   queries (snd (submitComplaint decimal_input (\<lambda>i. 0) 2000 pothole_without_contact None one_complaint))
     = Suc (queries one_complaint)"
  using submitComplaint_without_contact [of pothole_without_contact one_complaint decimal_input
      2000 "\<lambda>i. 0" None None]
  by (simp add: one_complaint_eq pothole_without_contact_def truthy_def)

lemma both_tables_eq:
  "both_tables =
     \<lparr>connected = True, queries = 2, admins = [], admins_id_seq = 0,
       codinCluc = [\<lparr>cc_id = 1, cc_case_id = Some ''CASE-SSSSSS'', cc_subject = ''Pothole'',
          cc_description = ''Large pothole'', cc_category = Some ''Roads'',
          cc_image_path = None, cc_mobile_no = 9876543210, cc_location = Some ''Main St'',
          cc_created_at = 1000, cc_status = ''Submitted''\<rparr>],
       codinCluc_id_seq = 1,
       missing_persons = [\<lparr>mp_id = 1, mp_case_id = ''CASE-SSSSSS'', mp_name = ''Ravi'',
          mp_age = Some 9, mp_gender = Some ''male'', mp_last_seen_date = Some 20240115,
          mp_last_seen_location = Some ''Station Road'', mp_description = None,
          mp_media_path = None, mp_reporter_mobile = Some 9876543210, mp_status = ''Active'',
          mp_created_at = 3000\<rparr>],
       missing_persons_id_seq = 1\<rparr>"
  by (simp add: both_tables_def one_complaint_eq submit_missing_person_def
      insert_missing_persons_def bind_def sent_def truthy_def missing_child_def
      generateCaseId_def caseId_loop.simps chars_def charAt_def
      decimal_input_def decimal_below_def decimal_def Let_def)


section \<open>Colliding case identifiers\<close>

lemma generateCaseId_half: "generateCaseId (\<lambda>i. 1 / 2) = ''CASE-SSSSSS''"
  by (simp add: generateCaseId_def caseId_loop.simps chars_def charAt_def)

lemma generateCaseId_half_then_zero:
  "generateCaseId (\<lambda>i. if i < 6 then 1 / 2 else 0) = ''CASE-SSSSSS''"
  by (simp add: generateCaseId_def caseId_loop.simps chars_def charAt_def)

lemma generateCaseId_zero: "generateCaseId (\<lambda>i. 0) = ''CASE-AAAAAA''"
  by (simp add: generateCaseId_def caseId_loop.simps chars_def charAt_def)

text \<open>
  C9, as the claim states it, fails: \<open>CASE-SSSSSS\<close> is stored; a request whose first six
  draws give \<open>CASE-SSSSSS\<close> again, and whose further draws would give the unused
  \<open>CASE-AAAAAA\<close>, is answered with the 500 of a store error after a single statement:
  nothing is generated again, nothing is sent again.
\<close>

theorem collision_not_retried_counterexample:
  "Some (generateCaseId (\<lambda>i. if i < 6 then 1 / 2 else 0)) \<in> set (map cc_case_id (codinCluc one_complaint)) \<and>
   Some (generateCaseId (\<lambda>i. 0)) \<notin> set (map cc_case_id (codinCluc one_complaint)) \<and>
   fst (submitComplaint decimal_input (\<lambda>i. if i < 6 then 1 / 2 else 0) 2000 pothole None one_complaint)
     = Json_failure 500 Error_submitting_complaint \<and>
   queries (snd (submitComplaint decimal_input (\<lambda>i. if i < 6 then 1 / 2 else 0) 2000 pothole None
      one_complaint)) = Suc (queries one_complaint)"
  by (simp add: generateCaseId_half_then_zero generateCaseId_zero one_complaint_eq
      submitComplaint_def insert_codinCluc_def bind_def sent_def truthy_def pothole_def
      decimal_input_def decimal_below_def decimal_def Let_def)

lemma submitComplaint_collision:
  assumes "truthy (body ''subject'')" "truthy (body ''description'')"
    "truthy (body ''location'')" "truthy (body ''category'')"
    and "Some (generateCaseId random) \<in> set (map cc_case_id (codinCluc d))"
  shows "fst (submitComplaint pg random now body file d) =
           Json_failure 500 Error_submitting_complaint"
    and "queries (snd (submitComplaint pg random now body file d)) = Suc (queries d)"
    and "codinCluc (snd (submitComplaint pg random now body file d)) = codinCluc d"
  using assms
  by (auto simp: submitComplaint_def insert_codinCluc_def bind_def sent_def Let_def
      split: option.splits sum.splits)

lemma submit_missing_person_collision:
  assumes "truthy (body ''name'')" "truthy (body ''age'')" "truthy (body ''gender'')"
    "truthy (body ''lastSeen'')" "truthy (body ''location'')" "truthy (body ''reporter_mobile'')"
    and "generateCaseId random \<in> set (map mp_case_id (missing_persons d))"
  shows "fst (submit_missing_person pg random now body file d) =
           Json_failure 500 Error_submitting_report"
    and "queries (snd (submit_missing_person pg random now body file d)) = Suc (queries d)"
    and "missing_persons (snd (submit_missing_person pg random now body file d)) = missing_persons d"
  using assms
  by (auto simp: submit_missing_person_def insert_missing_persons_def bind_def sent_def Let_def
      split: option.splits sum.splits)

text \<open>
  C9, amended. On both creation paths a request that passes the validation and whose
  generated identifier is already stored is not retried: exactly one statement is sent,
  the table is unchanged, and the caller receives status 500 with the generic message of
  a store error.
\<close>

theorem collision_not_retried:
  "(truthy (body ''subject'') \<and> truthy (body ''description'') \<and> truthy (body ''location'') \<and>
    truthy (body ''category'') \<and>
    Some (generateCaseId random) \<in> set (map cc_case_id (codinCluc d))
    \<longrightarrow> fst (submitComplaint pg random now body file d) =
           Json_failure 500 Error_submitting_complaint \<and>
        queries (snd (submitComplaint pg random now body file d)) = Suc (queries d) \<and>
        codinCluc (snd (submitComplaint pg random now body file d)) = codinCluc d) \<and>
   (truthy (report ''name'') \<and> truthy (report ''age'') \<and> truthy (report ''gender'') \<and>
    truthy (report ''lastSeen'') \<and> truthy (report ''location'') \<and>
    truthy (report ''reporter_mobile'') \<and>
    generateCaseId random \<in> set (map mp_case_id (missing_persons d))
    \<longrightarrow> fst (submit_missing_person pg random now report file d) =
           Json_failure 500 Error_submitting_report \<and>
        queries (snd (submit_missing_person pg random now report file d)) = Suc (queries d) \<and>
        missing_persons (snd (submit_missing_person pg random now report file d)) =
          missing_persons d)"
proof (intro conjI impI)
  assume "truthy (body ''subject'') \<and> truthy (body ''description'') \<and>
    truthy (body ''location'') \<and> truthy (body ''category'') \<and>
    Some (generateCaseId random) \<in> set (map cc_case_id (codinCluc d))"
  then have a: "truthy (body ''subject'')" "truthy (body ''description'')"
    "truthy (body ''location'')" "truthy (body ''category'')"
    "Some (generateCaseId random) \<in> set (map cc_case_id (codinCluc d))"
    by blast+
  show "fst (submitComplaint pg random now body file d) =
          Json_failure 500 Error_submitting_complaint"
    by (rule submitComplaint_collision(1) [OF a])
  show "queries (snd (submitComplaint pg random now body file d)) = Suc (queries d)"
    by (rule submitComplaint_collision(2) [OF a])
  show "codinCluc (snd (submitComplaint pg random now body file d)) = codinCluc d"
    by (rule submitComplaint_collision(3) [OF a])
next
  assume "truthy (report ''name'') \<and> truthy (report ''age'') \<and> truthy (report ''gender'') \<and>
    truthy (report ''lastSeen'') \<and> truthy (report ''location'') \<and>
    truthy (report ''reporter_mobile'') \<and>
    generateCaseId random \<in> set (map mp_case_id (missing_persons d))"
  then have b: "truthy (report ''name'')" "truthy (report ''age'')" "truthy (report ''gender'')"
    "truthy (report ''lastSeen'')" "truthy (report ''location'')"
    "truthy (report ''reporter_mobile'')"
    "generateCaseId random \<in> set (map mp_case_id (missing_persons d))"
    by blast+
  show "fst (submit_missing_person pg random now report file d) =
          Json_failure 500 Error_submitting_report"
    by (rule submit_missing_person_collision(1) [OF b])
  show "queries (snd (submit_missing_person pg random now report file d)) = Suc (queries d)"
    by (rule submit_missing_person_collision(2) [OF b])
  show "missing_persons (snd (submit_missing_person pg random now report file d)) =
          missing_persons d"
    by (rule submit_missing_person_collision(3) [OF b])
qed

theorem collision_not_retried_witness:
  "Some (generateCaseId (\<lambda>i. 1 / 2)) \<in> set (map cc_case_id (codinCluc both_tables)) \<and>
   generateCaseId (\<lambda>i. 1 / 2) \<in> set (map mp_case_id (missing_persons both_tables)) \<and>
   fst (submitComplaint decimal_input (\<lambda>i. 1 / 2) 4000 pothole None both_tables) =
     Json_failure 500 Error_submitting_complaint \<and>
   queries (snd (submitComplaint decimal_input (\<lambda>i. 1 / 2) 4000 pothole None both_tables)) = 3 \<and>
   fst (submit_missing_person decimal_input (\<lambda>i. 1 / 2) 4000 missing_child None both_tables) =
     Json_failure 500 Error_submitting_report \<and>
   queries (snd (submit_missing_person decimal_input (\<lambda>i. 1 / 2) 4000 missing_child None both_tables)) = 3"
  using collision_not_retried [of pothole "\<lambda>i. 1 / 2" both_tables decimal_input 4000 None missing_child]
  by (simp add: generateCaseId_half both_tables_eq pothole_def missing_child_def truthy_def)

section \<open>Tracking by case identifier\<close>

text \<open>The letters \<^verbatim>\<open>UPPER\<close> changes, the characters of an identifier and white space, by code.\<close>

lemma lower_range:
  "c \<in> set ''abcdefghijklmnopqrstuvwxyz'' \<Longrightarrow> 97 \<le> (of_char c :: nat) \<and> (of_char c :: nat) \<le> 122"
  by auto

lemma chars_range: "c \<in> set ''CASE-'' \<union> set chars \<Longrightarrow> 45 \<le> (of_char c :: nat) \<and> (of_char c :: nat) \<le> 90"
  by (auto simp: chars_def)

lemma space_range: "is_space c \<Longrightarrow> (of_char c :: nat) \<le> 32 \<or> (of_char c :: nat) = 160"
  by (auto simp: is_space_def)

lemma upper_char_other: "c \<notin> set ''abcdefghijklmnopqrstuvwxyz'' \<Longrightarrow> upper_char c = c"
  by (simp add: upper_char_def map_of_zip_is_None [THEN iffD2])

lemma upper_char_chars:
  assumes "c \<in> set ''CASE-'' \<union> set chars"
  shows "upper_char c = c"
proof -
  from chars_range [OF assms] lower_range [of c]
  have "c \<notin> set ''abcdefghijklmnopqrstuvwxyz''" by fastforce
  then show ?thesis by (rule upper_char_other)
qed

lemma UPPER_case_id:
  assumes "is_case_id s"
  shows "UPPER s = s"
proof -
  from assms have p: "take 5 s = ''CASE-''" and c: "set (drop 5 s) \<subseteq> set chars"
    by (simp_all add: is_case_id_def)
  have "map upper_char (take 5 s) = take 5 s"
    by (intro map_idI upper_char_chars) (auto simp: p)
  moreover have "map upper_char (drop 5 s) = drop 5 s"
    using c by (intro map_idI upper_char_chars) blast
  ultimately have "map upper_char (take 5 s @ drop 5 s) = take 5 s @ drop 5 s"
    by (simp only: map_append)
  then show ?thesis by (simp add: UPPER_def)
qed

lemma case_id_chars:
  assumes "is_case_id s"
  shows "set s \<subseteq> set ''CASE-'' \<union> set chars"
proof -
  from assms have p: "take 5 s = ''CASE-''" and c: "set (drop 5 s) \<subseteq> set chars"
    by (simp_all add: is_case_id_def)
  have "set s = set (take 5 s) \<union> set (drop 5 s)"
    by (metis append_take_drop_id set_append)
  with p c show ?thesis by auto
qed

lemma space_not_upper_of_case_id:
  assumes "is_space c"
  shows "upper_char c \<notin> set ''CASE-'' \<union> set chars"
proof -
  from space_range [OF assms] lower_range [of c]
  have "c \<notin> set ''abcdefghijklmnopqrstuvwxyz''" by fastforce
  then have "upper_char c = c" by (rule upper_char_other)
  moreover from space_range [OF assms] chars_range [of c]
  have "c \<notin> set ''CASE-'' \<union> set chars" by fastforce
  ultimately show ?thesis by simp
qed

lemma variant_no_space:
  assumes "is_case_id s" and "UPPER q = UPPER s"
  shows "\<forall>c \<in> set q. \<not> is_space c"
proof
  fix c assume c: "c \<in> set q"
  have "UPPER q = s" using assms by (simp add: UPPER_case_id)
  then have "upper_char c \<in> set s" using c by (auto simp: UPPER_def)
  with case_id_chars [OF assms(1)] have "upper_char c \<in> set ''CASE-'' \<union> set chars" by blast
  with space_not_upper_of_case_id show "\<not> is_space c" by blast
qed

lemma dropWhile_none: "\<forall>c \<in> set xs. \<not> P c \<Longrightarrow> dropWhile P xs = xs"
  by (cases xs) auto

lemma trim_variant:
  assumes "is_case_id s" and "UPPER q = UPPER s"
  shows "trim q = q" and "q \<noteq> []"
proof -
  from variant_no_space [OF assms] have n: "\<forall>c \<in> set q. \<not> is_space c" .
  then have "dropWhile is_space q = q" by (rule dropWhile_none)
  moreover from n have "dropWhile is_space (rev q) = rev q" by (intro dropWhile_none) simp
  ultimately show "trim q = q" by (simp add: trim_def)
  have "length (UPPER q) = length s" using assms by (simp add: UPPER_case_id)
  moreover have "length s = 11" using assms(1) by (simp add: is_case_id_def)
  ultimately show "q \<noteq> []" by (auto simp: UPPER_def)
qed

lemma filter_distinct_key:
  "distinct (map f xs) \<Longrightarrow> x \<in> set xs \<Longrightarrow> filter (\<lambda>y. f y = f x) xs = [x]"
proof (induction xs)
  case Nil
  then show ?case by simp
next
  case (Cons a xs)
  show ?case
  proof (cases "a = x")
    case True
    with Cons.prems have "\<forall>y \<in> set xs. f y \<noteq> f x" by (auto simp: image_iff)
    then have "filter (\<lambda>y. f y = f x) xs = []" by (simp add: filter_empty_conv)
    with True show ?thesis by simp
  next
    case False
    with Cons.prems have x: "x \<in> set xs" and d: "distinct (map f xs)" by auto
    from Cons.prems x have "f a \<noteq> f x" by (auto simp: image_iff)
    with Cons.IH [OF d x] show ?thesis by simp
  qed
qed

lemma select_by_variant:
  assumes wf: "case_ids_wf d" and r: "r \<in> set (codinCluc d)" and x: "cc_case_id r = Some s"
    and q: "UPPER q = UPPER s"
  shows "filter (\<lambda>r'. map_option UPPER (cc_case_id r') = Some (UPPER q)) (codinCluc d) = [r]"
proof -
  from wf r x have s: "is_case_id s" by (auto simp: case_ids_wf_def split: option.splits)
  have "filter (\<lambda>r'. map_option UPPER (cc_case_id r') = Some (UPPER q)) (codinCluc d)
          = filter (\<lambda>r'. cc_case_id r' = cc_case_id r) (codinCluc d)"
  proof (rule filter_cong [OF refl])
    fix r' assume "r' \<in> set (codinCluc d)"
    with wf obtain s' where s': "cc_case_id r' = Some s'" "is_case_id s'"
      by (auto simp: case_ids_wf_def split: option.splits)
    show "(map_option UPPER (cc_case_id r') = Some (UPPER q)) = (cc_case_id r' = cc_case_id r)"
      using s' s q x by (simp add: UPPER_case_id)
  qed
  also have "\<dots> = [r]"
    using wf r by (intro filter_distinct_key) (simp_all add: case_ids_wf_def)
  finally show ?thesis .
qed

text \<open>The invariant holds initially and is kept by the two handlers that write the table.\<close>

lemma case_ids_wf_empty: "case_ids_wf empty_db"
  by (simp add: case_ids_wf_def empty_db_def)

lemma is_case_id_generateCaseId:
  assumes "\<forall>k<6. 0 \<le> random k \<and> random k < 1"
  shows "is_case_id (generateCaseId random)"
  using generateCaseId_suffix [OF assms] by (auto simp: is_case_id_def)

lemma case_ids_wf_submitComplaint:
  assumes "case_ids_wf d" and "\<forall>k<6. 0 \<le> random k \<and> random k < 1"
  shows "case_ids_wf (snd (submitComplaint pg random now body file d))"
  using assms(1) is_case_id_generateCaseId [OF assms(2)]
  by (auto simp: submitComplaint_def insert_codinCluc_def bind_def sent_def Let_def
      case_ids_wf_def split: option.splits sum.splits)

lemma case_ids_wf_ids:
  "case_ids_wf d \<longleftrightarrow>
     (\<forall>c \<in> set (map cc_case_id (codinCluc d)). case c of None \<Rightarrow> False | Some c \<Rightarrow> is_case_id c) \<and>
     distinct (map cc_case_id (codinCluc d))"
  by (simp add: case_ids_wf_def)

lemma resolved_case_ids:
  "map cc_case_id (map (\<lambda>r. if cc_id r = k then r\<lparr>cc_status := ''Resolved''\<rparr> else r) rows)
     = map cc_case_id rows"
  by (induction rows) auto

lemma case_ids_wf_mark_resolved:
  assumes "case_ids_wf d"
  shows "case_ids_wf (snd (mark_resolved pg ident d))"
proof -
  have "map cc_case_id (codinCluc (snd (mark_resolved pg ident d))) = map cc_case_id (codinCluc d)"
    by (simp add: mark_resolved_def update_codinCluc_resolved_def sent_def Let_def
        resolved_case_ids split: option.splits)
  with assms show ?thesis unfolding case_ids_wf_ids by simp
qed

lemma case_ids_wf_one_complaint: "case_ids_wf one_complaint"
  by (simp add: one_complaint_eq case_ids_wf_def is_case_id_def chars_def)

text \<open>
  C7. In a store whose case identifiers have the generator's shape and are distinct (every
  store the handlers build), with the database reachable: for a stored complaint \<open>r\<close> with
  identifier \<open>s\<close> and any \<open>q\<close> that equals \<open>s\<close> up to the case of its letters
  (\<open>UPPER q = UPPER s\<close>, so the lowercased \<open>s\<close> in particular), tracking \<open>q\<close> shows
  exactly the record \<open>r\<close>.
\<close>

theorem trackStatus_case_insensitive:
  assumes "case_ids_wf d" and "connected d"
    and "r \<in> set (codinCluc d)" and "cc_case_id r = Some s"
    and "UPPER q = UPPER s" and "body ''caseId'' = Some q"
  shows "fst (trackStatus body d) = Render_trackStatusForm (Some r) None"
proof -
  from assms(1,3,4) have s: "is_case_id s"
    by (auto simp: case_ids_wf_def split: option.splits)
  note t = trim_variant [OF s assms(5)]
  from select_by_variant [OF assms(1,3,4,5)] assms(2,6) t show ?thesis
    by (simp add: trackStatus_def select_codinCluc_by_case_id_def Let_def)
qed

theorem trackStatus_case_insensitive_witness:
  "case_ids_wf one_complaint \<and> connected one_complaint \<and>
   map cc_case_id (codinCluc one_complaint) = [Some ''CASE-SSSSSS''] \<and>
   UPPER ''case-ssssss'' = UPPER ''CASE-SSSSSS'' \<and>
   fst (trackStatus [''caseId'' \<mapsto> ''case-ssssss''] one_complaint) =
     Render_trackStatusForm (Some (hd (codinCluc one_complaint))) None"
  using trackStatus_case_insensitive [of one_complaint "hd (codinCluc one_complaint)"
      "''CASE-SSSSSS''" "''case-ssssss''" "[''caseId'' \<mapsto> ''case-ssssss'']"]
    case_ids_wf_one_complaint
  by (simp add: one_complaint_eq UPPER_def upper_char_def)

section \<open>Admin one-time codes\<close>

lemma first_login_sample:
  "adminLogin decimal_input (\<lambda>i. 1 / 4) 0 0 0 (login_of ''D1'') empty_db =
    (Json_otp ''325000'',
     \<lparr>connected = True, queries = 2,
      admins = [\<lparr>ad_id = 1, ad_name = ''Asha'', ad_department_name = Some ''Roads'',
         ad_department_id = Some ''D1'', ad_mobile_no = Some 9876543210,
         ad_otp = Some ''325000'', ad_otp_expires = Some 300000000, ad_created_at = 0\<rparr>],
      admins_id_seq = 1, codinCluc = [], codinCluc_id_seq = 0, missing_persons = [],
      missing_persons_id_seq = 0\<rparr>)"
  by (simp add: adminLogin_def select_admins_by_department_def update_admins_otp_def insert_admins_def
      bind_def sent_def truthy_def toString_def nat_digits.simps login_of_def
      empty_db_def decimal_input_def decimal_below_def decimal_def Let_def)

lemma first_login_eq:
  "first_login =
     \<lparr>connected = True, queries = 2,
      admins = [\<lparr>ad_id = 1, ad_name = ''Asha'', ad_department_name = Some ''Roads'',
         ad_department_id = Some ''D1'', ad_mobile_no = Some 9876543210,
         ad_otp = Some ''325000'', ad_otp_expires = Some 300000000, ad_created_at = 0\<rparr>],
      admins_id_seq = 1, codinCluc = [], codinCluc_id_seq = 0, missing_persons = [],
      missing_persons_id_seq = 0\<rparr>"
  by (simp add: first_login_def first_login_sample)



lemma other_login_sample:
  "adminLogin decimal_input (\<lambda>i. 1 / 4) 60000 0 60000000 (login_of ''D2'') first_login =
    (Json_otp ''325000'',
     \<lparr>connected = True, queries = 4,
      admins = [\<lparr>ad_id = 1, ad_name = ''Asha'', ad_department_name = Some ''Roads'',
         ad_department_id = Some ''D1'', ad_mobile_no = Some 9876543210,
         ad_otp = Some ''325000'', ad_otp_expires = Some 300000000, ad_created_at = 0\<rparr>,
       \<lparr>ad_id = 2, ad_name = ''Asha'', ad_department_name = Some ''Roads'',
         ad_department_id = Some ''D2'', ad_mobile_no = Some 9876543210,
         ad_otp = Some ''325000'', ad_otp_expires = Some 360000000,
         ad_created_at = 60000000\<rparr>],
      admins_id_seq = 2, codinCluc = [], codinCluc_id_seq = 0, missing_persons = [],
      missing_persons_id_seq = 0\<rparr>)"
  by (simp add: first_login_eq adminLogin_def select_admins_by_department_def update_admins_otp_def insert_admins_def
      bind_def sent_def truthy_def toString_def nat_digits.simps login_of_def
      decimal_input_def decimal_below_def decimal_def Let_def)

lemma other_login_eq:
  "other_login =
     \<lparr>connected = True, queries = 4,
      admins = [\<lparr>ad_id = 1, ad_name = ''Asha'', ad_department_name = Some ''Roads'',
         ad_department_id = Some ''D1'', ad_mobile_no = Some 9876543210,
         ad_otp = Some ''325000'', ad_otp_expires = Some 300000000, ad_created_at = 0\<rparr>,
       \<lparr>ad_id = 2, ad_name = ''Asha'', ad_department_name = Some ''Roads'',
         ad_department_id = Some ''D2'', ad_mobile_no = Some 9876543210,
         ad_otp = Some ''325000'', ad_otp_expires = Some 360000000,
         ad_created_at = 60000000\<rparr>],
      admins_id_seq = 2, codinCluc = [], codinCluc_id_seq = 0, missing_persons = [],
      missing_persons_id_seq = 0\<rparr>"
  by (simp add: other_login_def other_login_sample)

lemma second_login_sample:
  "adminLogin decimal_input (\<lambda>i. 1 / 2) 120000 0 120000000 (login_of ''D1'') other_login =
    (Json_otp ''550000'',
     \<lparr>connected = True, queries = 6,
      admins = [\<lparr>ad_id = 1, ad_name = ''Asha'', ad_department_name = Some ''Roads'',
         ad_department_id = Some ''D1'', ad_mobile_no = Some 9876543210,
         ad_otp = Some ''550000'', ad_otp_expires = Some 420000000, ad_created_at = 0\<rparr>,
       \<lparr>ad_id = 2, ad_name = ''Asha'', ad_department_name = Some ''Roads'',
         ad_department_id = Some ''D2'', ad_mobile_no = Some 9876543210,
         ad_otp = Some ''325000'', ad_otp_expires = Some 360000000,
         ad_created_at = 60000000\<rparr>],
      admins_id_seq = 2, codinCluc = [], codinCluc_id_seq = 0, missing_persons = [],
      missing_persons_id_seq = 0\<rparr>)"
  by (simp add: other_login_eq adminLogin_def select_admins_by_department_def update_admins_otp_def insert_admins_def
      bind_def sent_def truthy_def toString_def nat_digits.simps login_of_def
      decimal_input_def decimal_below_def decimal_def Let_def)

lemma second_login_eq:
  "second_login =
     \<lparr>connected = True, queries = 6,
      admins = [\<lparr>ad_id = 1, ad_name = ''Asha'', ad_department_name = Some ''Roads'',
         ad_department_id = Some ''D1'', ad_mobile_no = Some 9876543210,
         ad_otp = Some ''550000'', ad_otp_expires = Some 420000000, ad_created_at = 0\<rparr>,
       \<lparr>ad_id = 2, ad_name = ''Asha'', ad_department_name = Some ''Roads'',
         ad_department_id = Some ''D2'', ad_mobile_no = Some 9876543210,
         ad_otp = Some ''325000'', ad_otp_expires = Some 360000000,
         ad_created_at = 60000000\<rparr>],
      admins_id_seq = 2, codinCluc = [], codinCluc_id_seq = 0, missing_persons = [],
      missing_persons_id_seq = 0\<rparr>"
  by (simp add: second_login_def second_login_sample)

lemma relogin_sample:
  "adminLogin decimal_input (\<lambda>i. 1 / 2) 60000 0 60000000 (login_of ''D1'') first_login =
    (Json_otp ''550000'',
     \<lparr>connected = True, queries = 4,
      admins = [\<lparr>ad_id = 1, ad_name = ''Asha'', ad_department_name = Some ''Roads'',
         ad_department_id = Some ''D1'', ad_mobile_no = Some 9876543210,
         ad_otp = Some ''550000'', ad_otp_expires = Some 360000000, ad_created_at = 0\<rparr>],
      admins_id_seq = 1, codinCluc = [], codinCluc_id_seq = 0, missing_persons = [],
      missing_persons_id_seq = 0\<rparr>)"
  by (simp add: first_login_eq adminLogin_def select_admins_by_department_def update_admins_otp_def insert_admins_def
      bind_def sent_def truthy_def toString_def nat_digits.simps login_of_def
      decimal_input_def decimal_below_def decimal_def Let_def)

lemma relogin_eq:
  "relogin =
     \<lparr>connected = True, queries = 4,
      admins = [\<lparr>ad_id = 1, ad_name = ''Asha'', ad_department_name = Some ''Roads'',
         ad_department_id = Some ''D1'', ad_mobile_no = Some 9876543210,
         ad_otp = Some ''550000'', ad_otp_expires = Some 360000000, ad_created_at = 0\<rparr>],
      admins_id_seq = 1, codinCluc = [], codinCluc_id_seq = 0, missing_persons = [],
      missing_persons_id_seq = 0\<rparr>"
  by (simp add: relogin_def relogin_sample)

text \<open>Verification succeeds exactly when some row holds the code with a later expiry.\<close>

lemma verify_admin_otp_iff:
  assumes "connected d"
  shows "fst (verify_admin_otp t zone2 input d) =
           (if \<exists>r \<in> set (admins d). otp_matches t zone2 (input ''otpInput'') r
            then Redirect ''/adminDashboard'' else Render_adminLogin Invalid_or_expired_OTP)"
proof -
  let ?hits = "filter (otp_matches t zone2 (input ''otpInput'')) (admins d)"
  have "(length (take 1 (sort_key (\<lambda>r. - ad_created_at r) ?hits)) = 0) = (?hits = [])"
    by (cases ?hits) simp_all
  also have "(?hits = []) = (\<not> (\<exists>r \<in> set (admins d). otp_matches t zone2 (input ''otpInput'') r))"
    by (simp add: filter_empty_conv)
  finally show ?thesis using assms
    by (simp add: verify_admin_otp_def select_admins_by_otp_def Let_def)
qed

text \<open>What a successful login leaves in the table.\<close>

lemma adminLogin_issued:
  assumes "adminLogin pg random T zone now body d = (Json_otp code, d1)"
  shows "connected d1"
    and "code = toString \<lfloor>100000 + random 0 * 900000\<rfloor>"
    and "(admins d1 =
            map (\<lambda>r. if ad_department_id r = body ''department_id''
                     then r\<lparr>ad_otp := Some code,
                            ad_otp_expires := Some ((T + 5 * 60 * 1000) * 1000 + zone)\<rparr>
                     else r) (admins d) \<and>
          (\<exists>r \<in> set (admins d). ad_department_id r = body ''department_id'')) \<or>
         (\<exists>row. admins d1 = admins d @ [row] \<and> ad_otp row = Some code \<and>
            ad_otp_expires row = Some ((T + 5 * 60 * 1000) * 1000 + zone) \<and>
            ad_department_id row = body ''department_id'' \<and>
            (\<forall>r \<in> set (admins d). ad_department_id r \<noteq> body ''department_id''))"
proof -
  from assms have v: "truthy (body ''department_id'')"
    by (auto simp: adminLogin_def Let_def split: if_splits)
  then have dep: "body ''department_id'' \<noteq> None"
    by (auto simp: truthy_def split: option.splits)
  from assms have c: "connected d"
    by (auto simp: adminLogin_def select_admins_by_department_def Let_def split: if_splits)
  let ?existing = "filter (\<lambda>r. ad_department_id r = body ''department_id'') (admins d)"
  show "code = toString \<lfloor>100000 + random 0 * 900000\<rfloor>"
    using assms
    by (auto simp: adminLogin_def Let_def split: if_splits prod.splits sum.splits)
  show "connected d1"
    using assms c
    by (auto simp: adminLogin_def select_admins_by_department_def update_admins_otp_def
        insert_admins_def sent_def Let_def bind_def
        split: if_splits prod.splits sum.splits option.splits)
  show "(admins d1 =
            map (\<lambda>r. if ad_department_id r = body ''department_id''
                     then r\<lparr>ad_otp := Some code,
                            ad_otp_expires := Some ((T + 5 * 60 * 1000) * 1000 + zone)\<rparr>
                     else r) (admins d) \<and>
          (\<exists>r \<in> set (admins d). ad_department_id r = body ''department_id'')) \<or>
         (\<exists>row. admins d1 = admins d @ [row] \<and> ad_otp row = Some code \<and>
            ad_otp_expires row = Some ((T + 5 * 60 * 1000) * 1000 + zone) \<and>
            ad_department_id row = body ''department_id'' \<and>
            (\<forall>r \<in> set (admins d). ad_department_id r \<noteq> body ''department_id''))"
  proof (cases "?existing = []")
    case True
    then have "\<forall>r \<in> set (admins d). ad_department_id r \<noteq> body ''department_id''"
      by (simp add: filter_empty_conv)
    with True assms c dep show ?thesis
      by (auto simp: adminLogin_def select_admins_by_department_def
          insert_admins_def sent_def Let_def bind_def
          split: if_splits sum.splits option.splits)
  next
    case False
    then have "\<exists>r \<in> set (admins d). ad_department_id r = body ''department_id''"
      by (auto simp: filter_empty_conv)
    with False assms c dep show ?thesis
      by (auto simp: adminLogin_def select_admins_by_department_def update_admins_otp_def
          sent_def Let_def split: if_splits)
  qed
qed


lemma otp_expiries_le_mono:
  "otp_expiries_le bound d \<Longrightarrow> bound \<le> bound' \<Longrightarrow> otp_expiries_le bound' d"
  by (fastforce simp: otp_expiries_le_def split: option.splits)


lemma otp_expiries_le_issued:
  assumes "adminLogin pg random T zone now body d = (Json_otp code, d1)"
    and "otp_expiries_le ((T + 5 * 60 * 1000) * 1000 + zone) d"
  shows "otp_expiries_le ((T + 5 * 60 * 1000) * 1000 + zone) d1"
  using adminLogin_issued(3) [OF assms(1)] assms(2)
  by (auto simp: otp_expiries_le_def split: option.splits)


lemma otp_expiries_le_adminLogin:
  assumes "otp_expiries_le bound d" and "bound \<le> (T + 5 * 60 * 1000) * 1000 + zone"
  shows "otp_expiries_le ((T + 5 * 60 * 1000) * 1000 + zone)
           (snd (adminLogin pg random T zone now body d))"
proof -
  from assms have le: "otp_expiries_le ((T + 5 * 60 * 1000) * 1000 + zone) d"
    by (rule otp_expiries_le_mono)
  obtain reply d1 where r: "adminLogin pg random T zone now body d = (reply, d1)"
    by (cases "adminLogin pg random T zone now body d")
  show ?thesis
  proof (cases "\<exists>code. reply = Json_otp code")
    case True
    with r le show ?thesis by (auto dest: otp_expiries_le_issued)
  next
    case False
    with r have "admins d1 = admins d"
      by (auto simp: adminLogin_def select_admins_by_department_def update_admins_otp_def
          insert_admins_def sent_def Let_def bind_def
          split: if_splits prod.splits sum.splits option.splits)
    with le r show ?thesis by (simp add: otp_expiries_le_def)
  qed
qed




text \<open>
  C3, as the claim states it, fails: department \<open>D1\<close> is issued 325000, department \<open>D2\<close>
  is issued the same code a minute later, \<open>D1\<close> is issued 550000 a minute after that;
  the earlier code of \<open>D1\<close> is still accepted, through the row of \<open>D2\<close>.
\<close>

theorem earlier_code_accepted_counterexample:
  "fst (adminLogin decimal_input (\<lambda>i. 1 / 4) 0 0 0 (login_of ''D1'') empty_db)
     = Json_otp ''325000'' \<and>
   fst (adminLogin decimal_input (\<lambda>i. 1 / 2) 120000 0 120000000 (login_of ''D1'') other_login)
     = Json_otp ''550000'' \<and>
   fst (verify_admin_otp 180000000 0 [''otpInput'' \<mapsto> ''325000''] second_login)
     = Redirect ''/adminDashboard''"
  by (simp add: first_login_sample second_login_sample second_login_eq
      verify_admin_otp_def select_admins_by_otp_def otp_matches_def sent_def Let_def)

lemma issued_rows_of_department:
  assumes "adminLogin pg random T zone now body d = (Json_otp code, d1)"
    and "r \<in> set (admins d1)" and "ad_department_id r = body ''department_id''"
  shows "ad_otp r = Some code \<and> ad_otp_expires r = Some ((T + 5 * 60 * 1000) * 1000 + zone)"
  using adminLogin_issued(3) [OF assms(1)] assms(2,3)
  by (auto split: if_splits)

text \<open>
  C3, amended. After a login for a department has issued \<open>code2\<close>, every row of that
  department holds \<open>code2\<close> and the new expiry, so one code per department is stored;
  verifying another code \<open>code1\<close> (an earlier one of the department in particular) fails
  whenever no row of another department holds \<open>code1\<close> unexpired at the time of the
  check.
\<close>

theorem reissue_supersedes:
  assumes "adminLogin pg random T zone now body d = (Json_otp code2, d2)"
  shows "(\<forall>r \<in> set (admins d2). ad_department_id r = body ''department_id'' \<longrightarrow>
            ad_otp r = Some code2 \<and>
            ad_otp_expires r = Some ((T + 5 * 60 * 1000) * 1000 + zone)) \<and>
         (input ''otpInput'' = Some code1 \<and> code1 \<noteq> code2 \<and>
          (\<forall>r \<in> set (admins d2). ad_department_id r \<noteq> body ''department_id'' \<longrightarrow>
             \<not> otp_matches t zone2 (Some code1) r)
          \<longrightarrow> fst (verify_admin_otp t zone2 input d2) = Render_adminLogin Invalid_or_expired_OTP)"
proof (rule conjI)
  show "\<forall>r \<in> set (admins d2). ad_department_id r = body ''department_id'' \<longrightarrow>
            ad_otp r = Some code2 \<and>
            ad_otp_expires r = Some ((T + 5 * 60 * 1000) * 1000 + zone)"
    using issued_rows_of_department [OF assms] by blast
next
  show "input ''otpInput'' = Some code1 \<and> code1 \<noteq> code2 \<and>
          (\<forall>r \<in> set (admins d2). ad_department_id r \<noteq> body ''department_id'' \<longrightarrow>
             \<not> otp_matches t zone2 (Some code1) r)
          \<longrightarrow> fst (verify_admin_otp t zone2 input d2) = Render_adminLogin Invalid_or_expired_OTP"
  proof (rule impI)
    assume h: "input ''otpInput'' = Some code1 \<and> code1 \<noteq> code2 \<and>
          (\<forall>r \<in> set (admins d2). ad_department_id r \<noteq> body ''department_id'' \<longrightarrow>
             \<not> otp_matches t zone2 (Some code1) r)"
    then have i: "input ''otpInput'' = Some code1" and ne: "code1 \<noteq> code2"
      and others: "\<forall>r \<in> set (admins d2). ad_department_id r \<noteq> body ''department_id'' \<longrightarrow>
             \<not> otp_matches t zone2 (Some code1) r"
      by blast+
    have "\<not> otp_matches t zone2 (input ''otpInput'') r" if r: "r \<in> set (admins d2)" for r
    proof (cases "ad_department_id r = body ''department_id''")
      case True
      with issued_rows_of_department [OF assms r] have "ad_otp r = Some code2" by blast
      with i ne show ?thesis by (simp add: otp_matches_def)
    next
      case False
      with others r i show ?thesis by simp
    qed
    then have "\<not> (\<exists>r \<in> set (admins d2). otp_matches t zone2 (input ''otpInput'') r)" by blast
    then show "fst (verify_admin_otp t zone2 input d2) = Render_adminLogin Invalid_or_expired_OTP"
      by (simp add: verify_admin_otp_iff [OF adminLogin_issued(1) [OF assms]])
  qed
qed

theorem reissue_supersedes_witness:
  "adminLogin decimal_input (\<lambda>i. 1 / 4) 0 0 0 (login_of ''D1'') empty_db
     = (Json_otp ''325000'', first_login) \<and>
   adminLogin decimal_input (\<lambda>i. 1 / 2) 60000 0 60000000 (login_of ''D1'') first_login
     = (Json_otp ''550000'', relogin) \<and>
   map ad_otp (admins relogin) = [Some ''550000''] \<and>
   map ad_otp_expires (admins relogin) = [Some ((60000 + 5 * 60 * 1000) * 1000)] \<and>
   fst (verify_admin_otp 120000000 0 [''otpInput'' \<mapsto> ''325000''] relogin)
     = Render_adminLogin Invalid_or_expired_OTP"
proof -
  have a: "adminLogin decimal_input (\<lambda>i. 1 / 2) 60000 0 60000000 (login_of ''D1'') first_login
     = (Json_otp ''550000'', relogin)"
    by (simp add: relogin_sample relogin_eq)
  have b: "adminLogin decimal_input (\<lambda>i. 1 / 4) 0 0 0 (login_of ''D1'') empty_db
     = (Json_otp ''325000'', first_login)"
    by (simp add: first_login_sample first_login_eq)
  from reissue_supersedes [OF a, of "[''otpInput'' \<mapsto> ''325000'']" "''325000''"
      120000000 0]
  have "fst (verify_admin_otp 120000000 0 [''otpInput'' \<mapsto> ''325000''] relogin)
     = Render_adminLogin Invalid_or_expired_OTP"
    by (simp add: relogin_eq login_of_def)
  with a b show ?thesis by (simp add: relogin_eq)
qed

end
